theory Spec2Isabelle
  imports Main
begin

section \<open>The security rules of the document database\<close>

text \<open>
  The rules file is a list of \<^verbatim>\<open>match\<close> blocks under
  \<^verbatim>\<open>match /databases/{database}/documents\<close>. A block names a path pattern and holds
  \<^verbatim>\<open>allow\<close> statements; a request is granted when one statement of a block matching
  its path names its operation and has a condition that evaluates to \<^verbatim>\<open>true\<close>. Nothing
  else grants: a request no statement grants is denied.

  Paths are relative to the documents root: \<^verbatim>\<open>/salons/{salonId}\<close> matches the
  two-segment path of a document of the collection, \<^verbatim>\<open>/salons\<close> the one-segment path.
\<close>

subsection \<open>Values, documents, requests\<close>

datatype val = VNull | VStr string | VBool bool | VInt int | VMap "(string \<times> val) list"

type_synonym document = "string \<rightharpoonup> val"

text \<open>
  The caller, \<^verbatim>\<open>request.auth\<close>: absent when the caller is not signed in. It has
  two fields, \<^verbatim>\<open>uid\<close> and \<^verbatim>\<open>token\<close>; the token is the map of the claims of
  the caller, the email address among them (\<^verbatim>\<open>request.auth.token.email\<close>).
\<close>

record auth_token =
  uid :: string
  token :: "(string \<times> val) list"

datatype operation = Get | List | Create | Update | Delete

text \<open>
  \<^verbatim>\<open>resource\<close> is the stored document (null when there is none),
  \<^verbatim>\<open>request.resource\<close> the document as the write would leave it.
\<close>

record request =
  auth :: "auth_token option"
  meth :: operation
  path :: "string list"
  resource :: "document option"
  request_resource :: "document option"

type_synonym database = "string list \<rightharpoonup> document"

subsection \<open>Expressions\<close>

text \<open>
  An expression evaluates to a value or fails (reading a field of null, reading a field
  a document does not have): \<open>None\<close> is the failure. \<^verbatim>\<open>&&\<close> and \<^verbatim>\<open>||\<close> evaluate
  their right operand only when the left one does not decide.
\<close>

definition rAnd :: "bool option \<Rightarrow> bool option \<Rightarrow> bool option" where
  "rAnd a b = (case a of None \<Rightarrow> None | Some x \<Rightarrow> (if x then b else Some False))"

definition rOr :: "bool option \<Rightarrow> bool option \<Rightarrow> bool option" where
  "rOr a b = (case a of None \<Rightarrow> None | Some x \<Rightarrow> (if x then Some True else b))"

definition rEq :: "val option \<Rightarrow> val option \<Rightarrow> bool option" where
  "rEq a b = (case a of None \<Rightarrow> None
              | Some x \<Rightarrow> (case b of None \<Rightarrow> None | Some y \<Rightarrow> Some (x = y)))"

definition notNull :: "val option \<Rightarrow> bool option" where
  "notNull a = (case a of None \<Rightarrow> None | Some x \<Rightarrow> Some (x \<noteq> VNull))"

text \<open>\<^verbatim>\<open>d.data.f\<close>\<close>

definition data_field :: "document option \<Rightarrow> string \<Rightarrow> val option" where
  "data_field d f = (case d of None \<Rightarrow> None | Some m \<Rightarrow> m f)"

text \<open>A call \<^verbatim>\<open>f(e)\<close>: the argument is evaluated first.\<close>

definition call :: "(val \<Rightarrow> bool option) \<Rightarrow> val option \<Rightarrow> bool option" where
  "call f a = (case a of None \<Rightarrow> None | Some v \<Rightarrow> f v)"

text \<open>
  \<^verbatim>\<open>request.auth.f\<close>: the read of a field of \<^verbatim>\<open>request.auth\<close>. It fails when
  \<^verbatim>\<open>request.auth\<close> is null and when \<open>f\<close> is not one of its two fields.
\<close>

definition auth_field :: "request \<Rightarrow> string \<Rightarrow> val option" where
  "auth_field r f =
     (case auth r of
        None \<Rightarrow> None
      | Some a \<Rightarrow> map_of [(''uid'', VStr (uid a)), (''token'', VMap (token a))] f)"

text \<open>\<^verbatim>\<open>request.auth.uid\<close> and \<^verbatim>\<open>request.auth.email\<close>\<close>

definition auth_uid :: "request \<Rightarrow> val option" where
  "auth_uid r = auth_field r ''uid''"

definition auth_email :: "request \<Rightarrow> val option" where
  "auth_email r = auth_field r ''email''"

text \<open>\<^verbatim>\<open>/databases/$(database)/documents/teamMembers/$(request.auth.uid)\<close>\<close>

definition teamMemberPath :: "request \<Rightarrow> string list option" where
  "teamMemberPath r = (case auth r of None \<Rightarrow> None | Some a \<Rightarrow> Some [''teamMembers'', uid a])"

definition exists_doc :: "database \<Rightarrow> string list option \<Rightarrow> bool option" where
  "exists_doc db p = (case p of None \<Rightarrow> None | Some q \<Rightarrow> Some (db q \<noteq> None))"

definition get_doc :: "database \<Rightarrow> string list option \<Rightarrow> document option" where
  "get_doc db p = (case p of None \<Rightarrow> None | Some q \<Rightarrow> db q)"

subsection \<open>The helper functions of the rules file\<close>

definition isAuthenticated :: "request \<Rightarrow> bool option" where
  "isAuthenticated r = Some (auth r \<noteq> None)"

definition isSalonOwner :: "request \<Rightarrow> val \<Rightarrow> bool option" where
  "isSalonOwner r salonId = rAnd (isAuthenticated r) (rEq (auth_uid r) (Some salonId))"

definition isTeamMember :: "database \<Rightarrow> request \<Rightarrow> val \<Rightarrow> bool option" where
  "isTeamMember db r salonId =
     rAnd (isAuthenticated r)
       (rAnd (exists_doc db (teamMemberPath r))
          (rEq (data_field (get_doc db (teamMemberPath r)) ''salonId'') (Some salonId)))"

definition hasTeamMemberRecord :: "database \<Rightarrow> request \<Rightarrow> bool option" where
  "hasTeamMemberRecord db r = rAnd (isAuthenticated r) (exists_doc db (teamMemberPath r))"

definition hasSalonAccess :: "database \<Rightarrow> request \<Rightarrow> val \<Rightarrow> bool option" where
  "hasSalonAccess db r salonId = rOr (isSalonOwner r salonId) (isTeamMember db r salonId)"

definition isPlatformAdmin :: "request \<Rightarrow> bool option" where
  "isPlatformAdmin r =
     rAnd (isAuthenticated r)
       (rOr (rEq (auth_email r) (Some (VStr ''ameet@gofisherman.com'')))
            (rEq (auth_email r) (Some (VStr ''ameetk96@gmail.com''))))"

subsection \<open>The match blocks\<close>

text \<open>
  The keywords of an \<^verbatim>\<open>allow\<close> statement: \<^verbatim>\<open>read\<close> stands for \<^verbatim>\<open>get\<close> and
  \<^verbatim>\<open>list\<close>, \<^verbatim>\<open>write\<close> for \<^verbatim>\<open>create\<close>, \<^verbatim>\<open>update\<close> and \<^verbatim>\<open>delete\<close>.
\<close>

datatype permission = PRead | PWrite | PGet | PList | PCreate | PUpdate | PDelete

fun covers :: "permission \<Rightarrow> operation \<Rightarrow> bool" where
  "covers PRead m = (m = Get \<or> m = List)"
| "covers PWrite m = (m = Create \<or> m = Update \<or> m = Delete)"
| "covers PGet m = (m = Get)"
| "covers PList m = (m = List)"
| "covers PCreate m = (m = Create)"
| "covers PUpdate m = (m = Update)"
| "covers PDelete m = (m = Delete)"

text \<open>An \<^verbatim>\<open>allow\<close> statement: its keywords and the value of its condition.\<close>

type_synonym allow = "permission list \<times> bool option"

text \<open>\<^verbatim>\<open>match /salons/{salonId}\<close>\<close>

definition salons_doc :: "database \<Rightarrow> request \<Rightarrow> string \<Rightarrow> allow list" where
  "salons_doc db r salonId =
    [([PRead, PWrite], rAnd (isAuthenticated r) (rEq (auth_uid r) (Some (VStr salonId)))),
     ([PRead], rAnd (isAuthenticated r)
        (rAnd (exists_doc db (teamMemberPath r))
           (rEq (data_field (get_doc db (teamMemberPath r)) ''salonId'') (Some (VStr salonId))))),
     ([PRead], rAnd (isAuthenticated r)
        (rAnd (exists_doc db (teamMemberPath r))
           (rAnd (rEq (data_field (get_doc db (teamMemberPath r)) ''userId'') (auth_uid r))
              (rEq (data_field (get_doc db (teamMemberPath r)) ''salonId'')
                 (Some (VStr salonId)))))),
     ([PRead], notNull (data_field (resource r) ''slug'')),
     ([PRead], isPlatformAdmin r),
     ([PRead], Some True)]"

text \<open>\<^verbatim>\<open>match /salons\<close>, \<^verbatim>\<open>match /providers\<close>, \<^verbatim>\<open>match /services\<close>\<close>

definition public_coll :: "request \<Rightarrow> allow list" where
  "public_coll r = [([PList], rOr (Some True) (isPlatformAdmin r))]"

text \<open>\<^verbatim>\<open>match /providers/{providerId}\<close> and \<^verbatim>\<open>match /services/{serviceId}\<close>\<close>

definition providers_doc :: "database \<Rightarrow> request \<Rightarrow> allow list" where
  "providers_doc db r =
    [([PRead, PWrite], call (hasSalonAccess db r) (data_field (resource r) ''salonId'')),
     ([PCreate], rAnd (isAuthenticated r)
        (rAnd (notNull (data_field (request_resource r) ''salonId''))
           (call (hasSalonAccess db r) (data_field (request_resource r) ''salonId'')))),
     ([PRead], Some True),
     ([PRead], isPlatformAdmin r)]"

text \<open>\<^verbatim>\<open>match /bookingRequests/{requestId}\<close>\<close>

definition bookingRequests_doc :: "database \<Rightarrow> request \<Rightarrow> allow list" where
  "bookingRequests_doc db r =
    [([PRead, PWrite], call (hasSalonAccess db r) (data_field (resource r) ''salonId'')),
     ([PCreate], notNull (data_field (request_resource r) ''salonId'')),
     ([PRead], isAuthenticated r)]"

text \<open>
  \<^verbatim>\<open>match /bookingRequests\<close>, \<^verbatim>\<open>match /teamMembers\<close>,
  \<^verbatim>\<open>match /shiftChangeRequests\<close>
\<close>

definition authenticated_coll :: "request \<Rightarrow> allow list" where
  "authenticated_coll r = [([PList], isAuthenticated r)]"

text \<open>\<^verbatim>\<open>match /teamMembers/{memberId}\<close>\<close>

definition teamMembers_doc :: "request \<Rightarrow> allow list" where
  "teamMembers_doc r =
    [([PRead], rAnd (isAuthenticated r)
        (rOr (call (isSalonOwner r) (data_field (resource r) ''salonId''))
             (rEq (auth_uid r) (data_field (resource r) ''userId'')))),
     ([PWrite], call (isSalonOwner r) (data_field (resource r) ''salonId'')),
     ([PCreate], rAnd (isAuthenticated r)
        (rAnd (notNull (data_field (request_resource r) ''salonId''))
           (call (isSalonOwner r) (data_field (request_resource r) ''salonId''))))]"

text \<open>\<^verbatim>\<open>match /invitations/{invitationId}\<close>\<close>

definition invitations_doc :: "request \<Rightarrow> allow list" where
  "invitations_doc r =
    [([PRead, PWrite], call (isSalonOwner r) (data_field (resource r) ''salonId'')),
     ([PCreate], rAnd (isAuthenticated r)
        (rAnd (notNull (data_field (request_resource r) ''salonId''))
           (call (isSalonOwner r) (data_field (request_resource r) ''salonId''))))]"

text \<open>
  \<^verbatim>\<open>match /loyaltyPrograms/{programId}\<close>, \<^verbatim>\<open>match /customerPasses/{passId}\<close>,
  \<^verbatim>\<open>match /visitRecords/{recordId}\<close> and \<^verbatim>\<open>match /clients/{clientId}\<close> hold the
  same two statements.
\<close>

definition scoped_doc :: "database \<Rightarrow> request \<Rightarrow> allow list" where
  "scoped_doc db r =
    [([PRead, PWrite], call (hasSalonAccess db r) (data_field (resource r) ''salonId'')),
     ([PCreate], rAnd (isAuthenticated r)
        (rAnd (notNull (data_field (request_resource r) ''salonId''))
           (call (hasSalonAccess db r) (data_field (request_resource r) ''salonId''))))]"

text \<open>\<^verbatim>\<open>match /shiftChangeRequests/{requestId}\<close>\<close>

definition shiftChangeRequests_doc :: "database \<Rightarrow> request \<Rightarrow> allow list" where
  "shiftChangeRequests_doc db r =
    [([PRead, PWrite], call (hasSalonAccess db r) (data_field (resource r) ''salonId'')),
     ([PRead], rAnd (isAuthenticated r)
        (rEq (data_field (resource r) ''providerId'') (auth_uid r))),
     ([PCreate], rAnd (isAuthenticated r)
        (rAnd (notNull (data_field (request_resource r) ''salonId''))
           (call (hasSalonAccess db r) (data_field (request_resource r) ''salonId''))))]"

text \<open>\<^verbatim>\<open>match /sessionTracking/{sessionId}\<close> and \<^verbatim>\<open>match /sessions/{sessionId}\<close>\<close>

definition sessions_doc :: "database \<Rightarrow> request \<Rightarrow> allow list" where
  "sessions_doc db r =
    [([PCreate], Some True),
     ([PRead, PWrite], rAnd (isAuthenticated r)
        (rAnd (notNull (data_field (resource r) ''salonId''))
           (call (hasSalonAccess db r) (data_field (resource r) ''salonId''))))]"

text \<open>\<^verbatim>\<open>match /sessions\<close>\<close>

definition sessions_coll :: "allow list" where
  "sessions_coll = [([PList], Some True)]"

text \<open>The statements of the block that matches the path of the request.\<close>

definition statements :: "database \<Rightarrow> request \<Rightarrow> allow list" where
  "statements db r =
    (case path r of
       [c] \<Rightarrow>
         if c = ''salons'' \<or> c = ''providers'' \<or> c = ''services'' then public_coll r
         else if c = ''bookingRequests'' \<or> c = ''teamMembers'' \<or> c = ''shiftChangeRequests''
           then authenticated_coll r
         else if c = ''sessions'' then sessions_coll
         else []
     | [c, docId] \<Rightarrow>
         if c = ''salons'' then salons_doc db r docId
         else if c = ''providers'' \<or> c = ''services'' then providers_doc db r
         else if c = ''bookingRequests'' then bookingRequests_doc db r
         else if c = ''teamMembers'' then teamMembers_doc r
         else if c = ''invitations'' then invitations_doc r
         else if c = ''loyaltyPrograms'' \<or> c = ''customerPasses'' \<or> c = ''visitRecords''
                 \<or> c = ''clients'' then scoped_doc db r
         else if c = ''shiftChangeRequests'' then shiftChangeRequests_doc db r
         else if c = ''sessionTracking'' \<or> c = ''sessions'' then sessions_doc db r
         else []
     | _ \<Rightarrow> [])"

definition grants :: "operation \<Rightarrow> allow \<Rightarrow> bool" where
  "grants m s = (list_ex (\<lambda>p. covers p m) (fst s) \<and> snd s = Some True)"

definition allowed :: "database \<Rightarrow> request \<Rightarrow> bool" where
  "allowed db r = list_ex (grants (meth r)) (statements db r)"

section \<open>The clients page\<close>

text \<open>
  \<^verbatim>\<open>fetchClients\<close> of \<^verbatim>\<open>src/app/dashboard/clients/page.tsx\<close> groups the booking
  requests of a salon by client and keeps the groups in a \<^verbatim>\<open>Map\<close>.
\<close>

subsection \<open>The runtime\<close>

text \<open>
  A \<^verbatim>\<open>Date\<close> is its time value, the milliseconds since the epoch, or \<open>None\<close> for an
  invalid date, whose time value is \<^verbatim>\<open>NaN\<close>.
\<close>

type_synonym date = "int option"

text \<open>
  The page calls three functions of the JavaScript runtime:
  \<^verbatim>\<open>String.prototype.toLowerCase\<close>, \<^verbatim>\<open>Date.prototype.toString\<close> and the
  \<^verbatim>\<open>Date\<close> constructor on a string. They are no code of the repository, and what they
  return depends on the Unicode tables, the time zone and the date formats of the runtime:
  the page is modelled for any three such functions.
\<close>

record runtime =
  toLowerCase :: "string \<Rightarrow> string"
  toString :: "date \<Rightarrow> string"
  newDate :: "string \<Rightarrow> date"

text \<open>\<^verbatim>\<open>a > b\<close> on two dates compares the time values, and is false when one is \<^verbatim>\<open>NaN\<close>.\<close>

definition date_gt :: "date \<Rightarrow> date \<Rightarrow> bool" where
  "date_gt a b =
     (case a of
        None \<Rightarrow> False
      | Some x \<Rightarrow> (case b of None \<Rightarrow> False | Some y \<Rightarrow> y < x))"

subsection \<open>Records\<close>

datatype status = Pending | Contacted | Booked | NotBooked | ProviderRequested

text \<open>The fields marked \<^verbatim>\<open>?\<close> in \<^verbatim>\<open>types/firebase.ts\<close> are options.\<close>

record BookingRequest =
  id_r :: string
  clientName :: string
  clientEmail :: string
  clientPhone :: string
  service :: string
  stylistPreference :: string
  dateTimePreference :: string
  notes_r :: "string option"
  waitlistOptIn :: bool
  status :: status
  salonId_r :: string
  submittedByProvider :: "bool option"
  providerId :: "string option"
  providerName :: "string option"
  createdAt :: date
  updatedAt :: date

record Client =
  id_c :: string
  name_c :: string
  email_c :: string
  phone_c :: string
  totalRequests :: nat
  completedRequests :: nat
  totalSpent :: nat
  lastRequest :: string
  notes_c :: string
  requests :: "BookingRequest list"

subsection \<open>The \<^verbatim>\<open>Map\<close>\<close>

text \<open>
  A \<^verbatim>\<open>Map\<close> keeps its entries in the order their keys were first set;
  \<^verbatim>\<open>set\<close> on a key it has replaces the value where it stands.
\<close>

type_synonym ('k, 'v) js_map = "('k \<times> 'v) list"

definition map_has :: "('k, 'v) js_map \<Rightarrow> 'k \<Rightarrow> bool" where
  "map_has m k = (map_of m k \<noteq> None)"

definition map_get :: "('k, 'v) js_map \<Rightarrow> 'k \<Rightarrow> 'v option" where
  "map_get m k = map_of m k"

fun map_set :: "('k, 'v) js_map \<Rightarrow> 'k \<Rightarrow> 'v \<Rightarrow> ('k, 'v) js_map" where
  "map_set [] k v = [(k, v)]"
| "map_set ((k', v') # m) k v =
     (if k' = k then (k, v) # m else (k', v') # map_set m k v)"

definition map_values :: "('k, 'v) js_map \<Rightarrow> 'v list" where
  "map_values m = map snd m"

subsection \<open>\<^verbatim>\<open>fetchClients\<close>\<close>

datatype error = TypeError

definition clientKey :: "runtime \<Rightarrow> BookingRequest \<Rightarrow> string" where
  "clientKey R request = toLowerCase R (clientEmail request)"

text \<open>The entry set for a key the map does not have.\<close>

definition newClient :: "runtime \<Rightarrow> BookingRequest \<Rightarrow> Client" where
  "newClient R request =
     \<lparr>id_c = clientKey R request,
      name_c = clientName request,
      email_c = clientEmail request,
      phone_c = clientPhone request,
      totalRequests = 0,
      completedRequests = 0,
      totalSpent = 0,
      lastRequest = toString R (createdAt request),
      notes_c = (case notes_r request of None \<Rightarrow> [] | Some n \<Rightarrow> n),
      requests = []\<rparr>"

text \<open>
  What the body does to the entry of the request's key, once it has one.
  \<^verbatim>\<open>new Date(request.createdAt)\<close> is a date of the time value of \<^verbatim>\<open>createdAt\<close>;
  \<^verbatim>\<open>new Date(client.lastRequest)\<close> reads the string.
\<close>

definition countRequest :: "runtime \<Rightarrow> Client \<Rightarrow> BookingRequest \<Rightarrow> Client" where
  "countRequest R client request =
     (let c1 = client\<lparr>totalRequests := totalRequests client + 1,
                      requests := requests client @ [request]\<rparr>;
          c2 = (if date_gt (createdAt request) (newDate R (lastRequest c1))
                then c1\<lparr>lastRequest := toString R (createdAt request)\<rparr> else c1)
      in if status request = Booked
         then c2\<lparr>completedRequests := completedRequests c2 + 1,
                 totalSpent := totalSpent c2 + 75\<rparr>
         else c2)"

text \<open>
  The body of the \<^verbatim>\<open>forEach\<close>. \<^verbatim>\<open>clientMap.get(clientKey)!\<close> asserts an entry;
  were there none, the increment of \<^verbatim>\<open>client.totalRequests\<close> would throw.
\<close>

definition forEach_body ::
  "runtime \<Rightarrow> (string, Client) js_map \<Rightarrow> BookingRequest \<Rightarrow> error + (string, Client) js_map"
  where
  "forEach_body R clientMap request =
     (let m1 = (if \<not> map_has clientMap (clientKey R request)
                then map_set clientMap (clientKey R request) (newClient R request)
                else clientMap)
      in case map_get m1 (clientKey R request) of
           None \<Rightarrow> Inl TypeError
         | Some client \<Rightarrow>
             Inr (map_set m1 (clientKey R request) (countRequest R client request)))"

fun forEach ::
  "runtime \<Rightarrow> (string, Client) js_map \<Rightarrow> BookingRequest list \<Rightarrow> error + (string, Client) js_map"
  where
  "forEach R clientMap [] = Inr clientMap"
| "forEach R clientMap (request # rest) =
     (case forEach_body R clientMap request of
        Inl e \<Rightarrow> Inl e
      | Inr m \<Rightarrow> forEach R m rest)"

text \<open>
  The list handed to \<^verbatim>\<open>setClients\<close>, from the list \<^verbatim>\<open>getBookingRequests\<close> returned;
  an error is what the \<^verbatim>\<open>catch\<close> block receives.
\<close>

definition fetchClients :: "runtime \<Rightarrow> BookingRequest list \<Rightarrow> error + Client list" where
  "fetchClients R bookingRequests =
     (case forEach R [] bookingRequests of
        Inl e \<Rightarrow> Inl e
      | Inr clientMap \<Rightarrow> Inr (map_values clientMap))"

subsection \<open>Dates printed to the second\<close>

text \<open>
  The printed form of a date has no milliseconds. Where the runtime reads it back without
  loss, the date read is the start of the second of the date printed, and two dates of one
  second print alike. \<open>seconds_only R ds\<close> says so of the dates \<open>ds\<close>, all of them valid:
  whether it holds of a date is a matter of the runtime (its zone, and its reading of years
  written with fewer than four digits), not of the page.
\<close>

definition second_of :: "int \<Rightarrow> int" where
  "second_of t = t - t mod 1000"

fun time_values :: "date list \<Rightarrow> int list" where
  "time_values [] = []"
| "time_values (None # ds) = time_values ds"
| "time_values (Some t # ds) = t # time_values ds"

definition seconds_only :: "runtime \<Rightarrow> date list \<Rightarrow> bool" where
  "seconds_only R ds \<longleftrightarrow>
     (\<forall>d \<in> set ds.
        case d of
          None \<Rightarrow> False
        | Some t \<Rightarrow>
            newDate R (toString R d) = Some (second_of t) \<and>
            (\<forall>u \<in> set (time_values ds).
               second_of u = second_of t \<longrightarrow> toString R (Some u) = toString R d))"

subsection \<open>What the loop keeps true\<close>

text \<open>
  After the requests \<open>seen\<close>, the entry under a key holds the requests of \<open>seen\<close> with
  that key, in their order, and its counters are those of these requests. Its
  \<^verbatim>\<open>lastRequest\<close> is the printed form of the date of one of them: of the latest, where
  the dates are printed to the second.
\<close>

definition entry_last :: "runtime \<Rightarrow> Client \<Rightarrow> bool" where
  "entry_last R c \<longleftrightarrow>
     requests c \<noteq> [] \<and>
     lastRequest c \<in> toString R ` createdAt ` set (requests c) \<and>
     (seconds_only R (map createdAt (requests c)) \<longrightarrow>
        lastRequest c = toString R (Some (Max (set (time_values (map createdAt (requests c)))))))"

definition entry_ok :: "runtime \<Rightarrow> BookingRequest list \<Rightarrow> string \<Rightarrow> Client \<Rightarrow> bool" where
  "entry_ok R seen k c \<longleftrightarrow>
     id_c c = k \<and> requests c = filter (\<lambda>r. clientKey R r = k) seen \<and>
     totalRequests c = length (requests c) \<and>
     completedRequests c = length (filter (\<lambda>r. status r = Booked) (requests c)) \<and>
     totalSpent c = 75 * completedRequests c \<and>
     entry_last R c"

definition map_ok :: "runtime \<Rightarrow> BookingRequest list \<Rightarrow> (string, Client) js_map \<Rightarrow> bool" where
  "map_ok R seen m \<longleftrightarrow>
     distinct (map fst m) \<and> set (map fst m) = clientKey R ` set seen \<and>
     (\<forall>k c. map_of m k = Some c \<longrightarrow> entry_ok R seen k c)"

subsection \<open>A sample of requests\<close>

text \<open>
  The three functions on the emails and the dates of the sample, as a runtime in the zone
  UTC computes them: the emails are ASCII text, and the dates are of November 2023.
\<close>

definition ascii_toLowerCase :: "string \<Rightarrow> string" where
  "ascii_toLowerCase s =
     map (\<lambda>c. case map_of (zip ''ABCDEFGHIJKLMNOPQRSTUVWXYZ'' ''abcdefghijklmnopqrstuvwxyz'') c of
                None \<Rightarrow> c
              | Some l \<Rightarrow> l) s"

definition sample_printed :: "(int \<times> string) list" where
  "sample_printed =
     [(1700000000500, ''Tue Nov 14 2023 22:13:20 GMT+0000 (Coordinated Universal Time)''),
      (1700000100000, ''Tue Nov 14 2023 22:15:00 GMT+0000 (Coordinated Universal Time)''),
      (1700086400700, ''Wed Nov 15 2023 22:13:20 GMT+0000 (Coordinated Universal Time)''),
      (1700086400200, ''Wed Nov 15 2023 22:13:20 GMT+0000 (Coordinated Universal Time)'')]"

definition sample_read :: "(string \<times> int) list" where
  "sample_read =
     [(''Tue Nov 14 2023 22:13:20 GMT+0000 (Coordinated Universal Time)'', 1700000000000),
      (''Tue Nov 14 2023 22:15:00 GMT+0000 (Coordinated Universal Time)'', 1700000100000),
      (''Wed Nov 15 2023 22:13:20 GMT+0000 (Coordinated Universal Time)'', 1700086400000)]"

definition sample_runtime :: runtime where
  "sample_runtime =
     \<lparr>toLowerCase = ascii_toLowerCase,
      toString = (\<lambda>d. case d of
                        None \<Rightarrow> ''Invalid Date''
                      | Some t \<Rightarrow> (case map_of sample_printed t of
                                    None \<Rightarrow> ''Invalid Date''
                                  | Some s \<Rightarrow> s)),
      newDate = map_of sample_read\<rparr>"

definition example_request :: "string \<Rightarrow> status \<Rightarrow> int \<Rightarrow> BookingRequest" where
  "example_request e s t =
     \<lparr>id_r = ''r'', clientName = ''Ann'', clientEmail = e, clientPhone = ''555'',
      service = ''cut'', stylistPreference = ''any'', dateTimePreference = ''today'',
      notes_r = None, waitlistOptIn = False, status = s, salonId_r = ''u1'',
      submittedByProvider = None, providerId = None, providerName = None,
      createdAt = Some t, updatedAt = Some t\<rparr>"

definition example_requests :: "BookingRequest list" where
  "example_requests =
     [example_request ''Ann@x.com'' Booked 1700000000500,
      example_request ''bob@y.org'' Pending 1700000100000,
      example_request ''ann@x.com'' Booked 1700086400700,
      example_request ''ann@X.com'' Contacted 1700086400200]"

section \<open>Properties of the security rules\<close>

lemma auth_uid_value:
  "auth_uid r = (case auth r of None \<Rightarrow> None | Some a \<Rightarrow> Some (VStr (uid a)))"
  by (simp add: auth_uid_def auth_field_def split: option.splits)

lemma auth_email_fails: "auth_email r = None"
  by (simp add: auth_email_def auth_field_def split: option.splits)

lemmas expr_defs = rAnd_def rOr_def rEq_def notNull_def data_field_def call_def auth_uid_value
  auth_email_fails teamMemberPath_def exists_doc_def get_doc_def isAuthenticated_def
  isSalonOwner_def isTeamMember_def hasSalonAccess_def isPlatformAdmin_def

lemma allowed_salons_doc:
  "path r = [''salons'', salonId] \<Longrightarrow>
   allowed db r = list_ex (grants (meth r)) (salons_doc db r salonId)"
  by (simp add: allowed_def statements_def)

lemma allowed_bookingRequests_doc:
  "path r = [''bookingRequests'', requestId] \<Longrightarrow>
   allowed db r = list_ex (grants (meth r)) (bookingRequests_doc db r)"
  by (simp add: allowed_def statements_def)

lemma allowed_teamMembers_doc:
  "path r = [''teamMembers'', memberId] \<Longrightarrow>
   allowed db r = list_ex (grants (meth r)) (teamMembers_doc r)"
  by (simp add: allowed_def statements_def)

lemma allowed_invitations_doc:
  "path r = [''invitations'', invitationId] \<Longrightarrow>
   allowed db r = list_ex (grants (meth r)) (invitations_doc r)"
  by (simp add: allowed_def statements_def)

lemma allowed_scoped_doc:
  "c = ''loyaltyPrograms'' \<or> c = ''customerPasses'' \<or> c = ''visitRecords'' \<or> c = ''clients'' \<Longrightarrow>
   path r = [c, docId] \<Longrightarrow>
   allowed db r = list_ex (grants (meth r)) (scoped_doc db r)"
  by (auto simp add: allowed_def statements_def)

lemma no_collection_block:
  "c = ''invitations'' \<or> c = ''loyaltyPrograms'' \<or> c = ''customerPasses'' \<or> c = ''visitRecords''
     \<or> c = ''clients'' \<Longrightarrow>
   path r = [c] \<Longrightarrow> statements db r = []"
  by (auto simp add: statements_def)

text \<open>
  C1. A read (\<^verbatim>\<open>get\<close> or \<^verbatim>\<open>list\<close>) of a salon document is allowed whoever the caller
  is, signed in or not, whatever the database and the stored document hold: the last
  statement of the block, \<^verbatim>\<open>allow read: if true\<close>, grants it.
\<close>

theorem salon_read_public:
  "path r = [''salons'', salonId] \<Longrightarrow> meth r = Get \<or> meth r = List \<Longrightarrow> allowed db r"
  by (auto simp add: allowed_salons_doc salons_doc_def grants_def)

theorem salon_read_public_witness:
  "allowed Map.empty
     \<lparr>auth = None, meth = Get, path = [''salons'', ''u1''], resource = None,
      request_resource = None\<rparr>"
  using salon_read_public [of "\<lparr>auth = None, meth = Get, path = [''salons'', ''u1''],
    resource = None, request_resource = None\<rparr>" "''u1''" Map.empty]
  by simp

text \<open>
  C3. Creating a booking request (the document does not exist yet, so \<^verbatim>\<open>resource\<close> is
  null) is allowed exactly when the proposed document has a \<^verbatim>\<open>salonId\<close> that is not
  null: denied when it is null, allowed for every caller, signed in or not, when it is
  not.
\<close>

theorem bookingRequest_create:
  "path r = [''bookingRequests'', requestId] \<Longrightarrow> meth r = Create \<Longrightarrow> resource r = None \<Longrightarrow>
   allowed db r =
     (case data_field (request_resource r) ''salonId'' of
        None \<Rightarrow> False
      | Some v \<Rightarrow> v \<noteq> VNull)"
  by (auto simp add: allowed_bookingRequests_doc bookingRequests_doc_def grants_def expr_defs
      split: option.splits)

theorem bookingRequest_create_witness:
  "\<not> allowed Map.empty
       \<lparr>auth = Some \<lparr>uid = ''u1'', token = [(''email'', VStr ''o@x.com'')]\<rparr>, meth = Create,
        path = [''bookingRequests'', ''b1''], resource = None,
        request_resource = Some [''salonId'' \<mapsto> VNull]\<rparr> \<and>
   allowed Map.empty
     \<lparr>auth = None, meth = Create, path = [''bookingRequests'', ''b1''], resource = None,
      request_resource = Some [''salonId'' \<mapsto> VStr ''u1'']\<rparr>"
  using
    bookingRequest_create [of "\<lparr>auth = Some \<lparr>uid = ''u1'', token = [(''email'', VStr ''o@x.com'')]\<rparr>,
      meth = Create, path = [''bookingRequests'', ''b1''], resource = None,
      request_resource = Some [''salonId'' \<mapsto> VNull]\<rparr>" "''b1''" Map.empty]
    bookingRequest_create [of "\<lparr>auth = None, meth = Create,
      path = [''bookingRequests'', ''b1''], resource = None,
      request_resource = Some [''salonId'' \<mapsto> VStr ''u1'']\<rparr>" "''b1''" Map.empty]
  by (simp add: data_field_def)

text \<open>
  C4. Creating a team member document (\<^verbatim>\<open>resource\<close> is null) is allowed exactly when the
  caller is signed in and the \<^verbatim>\<open>salonId\<close> of the proposed document is the caller's own
  identity. The database, and with it every team member record of the caller, plays no part.
\<close>

theorem teamMember_create:
  "path r = [''teamMembers'', memberId] \<Longrightarrow> meth r = Create \<Longrightarrow> resource r = None \<Longrightarrow>
   allowed db r =
     (case auth r of
        None \<Rightarrow> False
      | Some a \<Rightarrow> data_field (request_resource r) ''salonId'' = Some (VStr (uid a)))"
  by (auto simp add: allowed_teamMembers_doc teamMembers_doc_def grants_def expr_defs
      split: option.splits)

theorem teamMember_create_witness:
  "\<not> allowed [[''teamMembers'', ''u2''] \<mapsto> [''salonId'' \<mapsto> VStr ''u1'', ''userId'' \<mapsto> VStr ''u2'']]
       \<lparr>auth = Some \<lparr>uid = ''u2'', token = [(''email'', VStr ''m@x.com'')]\<rparr>, meth = Create,
        path = [''teamMembers'', ''u3''], resource = None,
        request_resource = Some [''salonId'' \<mapsto> VStr ''u1'', ''userId'' \<mapsto> VStr ''u3'']\<rparr> \<and>
   allowed Map.empty
     \<lparr>auth = Some \<lparr>uid = ''u1'', token = [(''email'', VStr ''o@x.com'')]\<rparr>, meth = Create,
      path = [''teamMembers'', ''u3''], resource = None,
      request_resource = Some [''salonId'' \<mapsto> VStr ''u1'', ''userId'' \<mapsto> VStr ''u3'']\<rparr>"
  using
    teamMember_create [of "\<lparr>auth = Some \<lparr>uid = ''u2'', token = [(''email'', VStr ''m@x.com'')]\<rparr>, meth = Create,
      path = [''teamMembers'', ''u3''], resource = None,
      request_resource = Some [''salonId'' \<mapsto> VStr ''u1'', ''userId'' \<mapsto> VStr ''u3'']\<rparr>" "''u3''"
      "[[''teamMembers'', ''u2''] \<mapsto> [''salonId'' \<mapsto> VStr ''u1'', ''userId'' \<mapsto> VStr ''u2'']]"]
    teamMember_create [of "\<lparr>auth = Some \<lparr>uid = ''u1'', token = [(''email'', VStr ''o@x.com'')]\<rparr>, meth = Create,
      path = [''teamMembers'', ''u3''], resource = None,
      request_resource = Some [''salonId'' \<mapsto> VStr ''u1'', ''userId'' \<mapsto> VStr ''u3'']\<rparr>" "''u3''"
      Map.empty]
  by (simp add: data_field_def)

text \<open>
  C5. A read (\<^verbatim>\<open>get\<close> or \<^verbatim>\<open>list\<close>) of a team member document is denied to every
  caller who is not signed in, and to every signed-in caller whose identity is neither the
  \<^verbatim>\<open>userId\<close> nor the \<^verbatim>\<open>salonId\<close> of the stored document.
\<close>

theorem teamMember_read_denied:
  "path r = [''teamMembers'', memberId] \<Longrightarrow> meth r = Get \<or> meth r = List \<Longrightarrow>
   (case auth r of
      None \<Rightarrow> True
    | Some a \<Rightarrow> data_field (resource r) ''userId'' \<noteq> Some (VStr (uid a)) \<and>
               data_field (resource r) ''salonId'' \<noteq> Some (VStr (uid a))) \<Longrightarrow>
   \<not> allowed db r"
  by (auto simp add: allowed_teamMembers_doc teamMembers_doc_def grants_def expr_defs
      split: option.splits if_splits)

theorem teamMember_read_denied_witness:
  "\<not> allowed Map.empty
       \<lparr>auth = None, meth = Get, path = [''teamMembers'', ''u2''],
        resource = Some [''salonId'' \<mapsto> VStr ''u1'', ''userId'' \<mapsto> VStr ''u2''],
        request_resource = None\<rparr> \<and>
   \<not> allowed Map.empty
       \<lparr>auth = Some \<lparr>uid = ''u9'', token = [(''email'', VStr ''s@x.com'')]\<rparr>, meth = Get,
        path = [''teamMembers'', ''u2''],
        resource = Some [''salonId'' \<mapsto> VStr ''u1'', ''userId'' \<mapsto> VStr ''u2''],
        request_resource = None\<rparr>"
  using
    teamMember_read_denied [of "\<lparr>auth = None, meth = Get, path = [''teamMembers'', ''u2''],
      resource = Some [''salonId'' \<mapsto> VStr ''u1'', ''userId'' \<mapsto> VStr ''u2''],
      request_resource = None\<rparr>" "''u2''" Map.empty]
    teamMember_read_denied [of "\<lparr>auth = Some \<lparr>uid = ''u9'', token = [(''email'', VStr ''s@x.com'')]\<rparr>, meth = Get,
      path = [''teamMembers'', ''u2''],
      resource = Some [''salonId'' \<mapsto> VStr ''u1'', ''userId'' \<mapsto> VStr ''u2''],
      request_resource = None\<rparr>" "''u2''" Map.empty]
  by (simp add: data_field_def)

text \<open>
  \<^verbatim>\<open>isPlatformAdmin\<close> reads \<^verbatim>\<open>request.auth.email\<close>, a field \<^verbatim>\<open>request.auth\<close>
  does not have. For a caller who is not signed in \<^verbatim>\<open>isAuthenticated()\<close> decides, and
  the value is false; for every signed-in caller the read fails, and the condition with it.
\<close>

lemma isPlatformAdmin_value:
  "isPlatformAdmin r = (case auth r of None \<Rightarrow> Some False | Some a \<Rightarrow> None)"
  by (simp add: expr_defs split: option.splits)

lemma isPlatformAdmin_never_true: "isPlatformAdmin r \<noteq> Some True"
  by (simp add: isPlatformAdmin_value split: option.splits)

text \<open>
  C6. The claim has \<^verbatim>\<open>isPlatformAdmin\<close> true for a signed-in caller whose email is one
  of the two addresses, as the comment of the function and its use intend. For a caller
  signed in with \<open>ameetk96@gmail.com\<close> the function does not evaluate to true: it fails,
  and \<^verbatim>\<open>allow read: if isPlatformAdmin()\<close> grants nothing.
\<close>

theorem isPlatformAdmin_admin_email_fails:
  "map_of (token \<lparr>uid = ''u7'', token = [(''email'', VStr ''ameetk96@gmail.com'')]\<rparr>) ''email''
     = Some (VStr ''ameetk96@gmail.com'') \<and>
   isPlatformAdmin
     \<lparr>auth = Some \<lparr>uid = ''u7'', token = [(''email'', VStr ''ameetk96@gmail.com'')]\<rparr>,
      meth = Get, path = [''salons'', ''u1''], resource = None, request_resource = None\<rparr>
     = None"
  by (simp add: isPlatformAdmin_value)

text \<open>
  C7. For a signed-in caller with no team member document under their identity,
  \<^verbatim>\<open>isTeamMember(salonId)\<close> is false for every \<^verbatim>\<open>salonId\<close>: \<^verbatim>\<open>exists\<close> is false, so
  the \<^verbatim>\<open>get\<close> on the missing document is never evaluated and the condition does not fail.
\<close>

theorem isTeamMember_no_record:
  "auth r = Some a \<Longrightarrow> db [''teamMembers'', uid a] = None \<Longrightarrow>
   isTeamMember db r salonId = Some False"
  by (simp add: expr_defs)

theorem isTeamMember_no_record_witness:
  "isTeamMember [[''teamMembers'', ''u2''] \<mapsto> [''salonId'' \<mapsto> VStr ''u1'', ''userId'' \<mapsto> VStr ''u2'']]
     \<lparr>auth = Some \<lparr>uid = ''u9'', token = [(''email'', VStr ''s@x.com'')]\<rparr>, meth = Get,
      path = [''clients'', ''c1''], resource = None, request_resource = None\<rparr>
     (VStr ''u1'') = Some False"
  using isTeamMember_no_record [of "\<lparr>auth = Some \<lparr>uid = ''u9'', token = [(''email'', VStr ''s@x.com'')]\<rparr>,
      meth = Get, path = [''clients'', ''c1''], resource = None, request_resource = None\<rparr>"
      "\<lparr>uid = ''u9'', token = [(''email'', VStr ''s@x.com'')]\<rparr>"
      "[[''teamMembers'', ''u2''] \<mapsto> [''salonId'' \<mapsto> VStr ''u1'', ''userId'' \<mapsto> VStr ''u2'']]"
      "VStr ''u1''"]
  by simp

text \<open>
  C2. Invitations are the owner's alone. A team member of the salon an invitation refers
  to has \<^verbatim>\<open>hasSalonAccess\<close> of that salon and is denied the read: the block calls
  \<^verbatim>\<open>isSalonOwner\<close>, not \<^verbatim>\<open>hasSalonAccess\<close>.
\<close>

theorem invitation_team_member_counterexample:
  "hasSalonAccess
     [[''teamMembers'', ''u2''] \<mapsto> [''salonId'' \<mapsto> VStr ''u1'', ''userId'' \<mapsto> VStr ''u2'']]
     \<lparr>auth = Some \<lparr>uid = ''u2'', token = [(''email'', VStr ''m@x.com'')]\<rparr>, meth = Get,
      path = [''invitations'', ''i1''], resource = Some [''salonId'' \<mapsto> VStr ''u1''],
      request_resource = None\<rparr>
     (VStr ''u1'') = Some True \<and>
   \<not> allowed
       [[''teamMembers'', ''u2''] \<mapsto> [''salonId'' \<mapsto> VStr ''u1'', ''userId'' \<mapsto> VStr ''u2'']]
       \<lparr>auth = Some \<lparr>uid = ''u2'', token = [(''email'', VStr ''m@x.com'')]\<rparr>, meth = Get,
        path = [''invitations'', ''i1''], resource = Some [''salonId'' \<mapsto> VStr ''u1''],
        request_resource = None\<rparr>"
  by (simp add: allowed_invitations_doc invitations_doc_def grants_def expr_defs)

text \<open>
  C2, as the rules have it. On an invitation document, a read (\<^verbatim>\<open>get\<close> or \<^verbatim>\<open>list\<close>),
  an update and a delete are allowed exactly when the caller is signed in and the
  \<^verbatim>\<open>salonId\<close> of the stored document is the caller's identity; a create (\<^verbatim>\<open>resource\<close>
  is null) exactly when the caller is signed in and the \<^verbatim>\<open>salonId\<close> of the proposed
  document is the caller's identity, which makes it non-null. Team membership grants
  nothing.
\<close>

theorem invitation_owner_only:
  "path r = [''invitations'', invitationId] \<Longrightarrow>
   (meth r \<noteq> Create \<longrightarrow>
      allowed db r =
        (case auth r of
           None \<Rightarrow> False
         | Some a \<Rightarrow> data_field (resource r) ''salonId'' = Some (VStr (uid a)))) \<and>
   (meth r = Create \<and> resource r = None \<longrightarrow>
      allowed db r =
        (case auth r of
           None \<Rightarrow> False
         | Some a \<Rightarrow> data_field (request_resource r) ''salonId'' = Some (VStr (uid a))))"
  by (cases "meth r")
     (auto simp add: allowed_invitations_doc invitations_doc_def grants_def expr_defs
      split: option.splits)

theorem invitation_owner_only_witness:
  "allowed Map.empty
     \<lparr>auth = Some \<lparr>uid = ''u1'', token = [(''email'', VStr ''o@x.com'')]\<rparr>, meth = Get,
      path = [''invitations'', ''i1''], resource = Some [''salonId'' \<mapsto> VStr ''u1''],
      request_resource = None\<rparr> \<and>
   allowed Map.empty
     \<lparr>auth = Some \<lparr>uid = ''u1'', token = [(''email'', VStr ''o@x.com'')]\<rparr>, meth = Create,
      path = [''invitations'', ''i1''], resource = None,
      request_resource = Some [''salonId'' \<mapsto> VStr ''u1'']\<rparr>"
  using
    invitation_owner_only [of "\<lparr>auth = Some \<lparr>uid = ''u1'', token = [(''email'', VStr ''o@x.com'')]\<rparr>, meth = Get,
      path = [''invitations'', ''i1''], resource = Some [''salonId'' \<mapsto> VStr ''u1''],
      request_resource = None\<rparr>" "''i1''" Map.empty]
    invitation_owner_only [of "\<lparr>auth = Some \<lparr>uid = ''u1'', token = [(''email'', VStr ''o@x.com'')]\<rparr>, meth = Create,
      path = [''invitations'', ''i1''], resource = None,
      request_resource = Some [''salonId'' \<mapsto> VStr ''u1'']\<rparr>" "''i1''" Map.empty]
  by (simp add: data_field_def)

text \<open>
  C9. A query on a collection is a \<^verbatim>\<open>list\<close> request on the documents it may return, and
  \<^verbatim>\<open>allow read\<close> covers \<^verbatim>\<open>list\<close>: the owner of a salon lists the invitations of
  that salon.
\<close>

theorem invitation_list_counterexample:
  "allowed Map.empty
     \<lparr>auth = Some \<lparr>uid = ''u1'', token = [(''email'', VStr ''o@x.com'')]\<rparr>, meth = List,
      path = [''invitations'', ''i1''], resource = Some [''salonId'' \<mapsto> VStr ''u1''],
      request_resource = None\<rparr>"
  by (simp add: allowed_invitations_doc invitations_doc_def grants_def expr_defs)

text \<open>
  C9, as the rules have it. For \<^verbatim>\<open>invitations\<close>, \<^verbatim>\<open>loyaltyPrograms\<close>,
  \<^verbatim>\<open>customerPasses\<close>, \<^verbatim>\<open>visitRecords\<close> and \<^verbatim>\<open>clients\<close> no block matches the path
  of the collection itself, so nothing is granted there. A \<^verbatim>\<open>list\<close> request on a document
  of one of them is decided by the \<^verbatim>\<open>allow read\<close> statement of its document block: it is
  allowed exactly when \<^verbatim>\<open>isSalonOwner\<close> (invitations) or \<^verbatim>\<open>hasSalonAccess\<close> (the
  other four) holds of the stored \<^verbatim>\<open>salonId\<close>, and so denied to every caller who is not
  signed in.
\<close>

theorem scoped_list:
  "c = ''invitations'' \<or> c = ''loyaltyPrograms'' \<or> c = ''customerPasses'' \<or> c = ''visitRecords''
     \<or> c = ''clients'' \<Longrightarrow>
   meth r = List \<Longrightarrow>
   (path r = [c] \<longrightarrow> \<not> allowed db r) \<and>
   (path r = [c, docId] \<longrightarrow>
      allowed db r =
        (call (if c = ''invitations'' then isSalonOwner r else hasSalonAccess db r)
           (data_field (resource r) ''salonId'') = Some True)) \<and>
   (path r = [c, docId] \<and> auth r = None \<longrightarrow> \<not> allowed db r)"
proof (intro conjI impI)
  assume c: "c = ''invitations'' \<or> c = ''loyaltyPrograms'' \<or> c = ''customerPasses''
    \<or> c = ''visitRecords'' \<or> c = ''clients''" and m: "meth r = List"
  show "\<not> allowed db r" if "path r = [c]"
    using no_collection_block [OF c that] by (simp add: allowed_def)
  have doc: "allowed db r =
      (call (if c = ''invitations'' then isSalonOwner r else hasSalonAccess db r)
         (data_field (resource r) ''salonId'') = Some True)" if p: "path r = [c, docId]"
  proof (cases "c = ''invitations''")
    case True
    with p m show ?thesis
      by (simp add: allowed_invitations_doc invitations_doc_def grants_def)
  next
    case False
    with c have "c = ''loyaltyPrograms'' \<or> c = ''customerPasses'' \<or> c = ''visitRecords''
      \<or> c = ''clients''" by simp
    from allowed_scoped_doc [OF this p] m False show ?thesis
      by (simp add: scoped_doc_def grants_def)
  qed
  show "allowed db r =
      (call (if c = ''invitations'' then isSalonOwner r else hasSalonAccess db r)
         (data_field (resource r) ''salonId'') = Some True)" if "path r = [c, docId]"
    using that by (rule doc)
  show "\<not> allowed db r" if "path r = [c, docId] \<and> auth r = None"
    using that doc by (auto simp add: expr_defs split: option.splits)
qed

theorem scoped_list_witness:
  "\<not> allowed Map.empty
       \<lparr>auth = Some \<lparr>uid = ''u1'', token = [(''email'', VStr ''o@x.com'')]\<rparr>, meth = List,
        path = [''clients''], resource = None, request_resource = None\<rparr> \<and>
   allowed Map.empty
     \<lparr>auth = Some \<lparr>uid = ''u1'', token = [(''email'', VStr ''o@x.com'')]\<rparr>, meth = List,
      path = [''clients'', ''c1''], resource = Some [''salonId'' \<mapsto> VStr ''u1''],
      request_resource = None\<rparr> \<and>
   \<not> allowed Map.empty
       \<lparr>auth = None, meth = List,
        path = [''clients'', ''c1''], resource = Some [''salonId'' \<mapsto> VStr ''u1''],
        request_resource = None\<rparr>"
  using
    scoped_list [of "''clients''" "\<lparr>auth = Some \<lparr>uid = ''u1'', token = [(''email'', VStr ''o@x.com'')]\<rparr>,
      meth = List, path = [''clients''], resource = None, request_resource = None\<rparr>"
      Map.empty "''c1''"]
    scoped_list [of "''clients''" "\<lparr>auth = Some \<lparr>uid = ''u1'', token = [(''email'', VStr ''o@x.com'')]\<rparr>,
      meth = List, path = [''clients'', ''c1''],
      resource = Some [''salonId'' \<mapsto> VStr ''u1''], request_resource = None\<rparr>"
      Map.empty "''c1''"]
    scoped_list [of "''clients''" "\<lparr>auth = None,
      meth = List, path = [''clients'', ''c1''],
      resource = Some [''salonId'' \<mapsto> VStr ''u1''], request_resource = None\<rparr>"
      Map.empty "''c1''"]
  by (simp add: expr_defs)

section \<open>Properties of the clients page\<close>

subsection \<open>The second of a date\<close>

lemma second_of_le: "second_of t \<le> t"
  by (simp add: second_of_def)

lemma second_of_mult: "second_of t = 1000 * (t div 1000)"
  by (simp add: second_of_def minus_mod_eq_mult_div)

lemma second_of_mono: "a \<le> b \<Longrightarrow> second_of a \<le> second_of b"
  by (simp add: second_of_mult zdiv_mono1)

lemma second_of_idem: "second_of (second_of t) = second_of t"
  by (simp add: second_of_mult)

lemma second_of_between:
  assumes "second_of m < t" and "t \<le> m"
  shows "second_of t = second_of m"
proof (rule antisym)
  show "second_of t \<le> second_of m"
    using assms(2) by (rule second_of_mono)
  have "second_of (second_of m) \<le> second_of t"
    using assms(1) by (intro second_of_mono) simp
  then show "second_of m \<le> second_of t"
    by (simp add: second_of_idem)
qed

lemma set_time_values: "t \<in> set (time_values ds) \<longleftrightarrow> Some t \<in> set ds"
  by (induction ds rule: time_values.induct) simp_all

lemma time_values_append: "time_values (ds @ es) = time_values ds @ time_values es"
  by (induction ds rule: time_values.induct) simp_all

lemma seconds_only_at:
  assumes "seconds_only R ds" and "Some t \<in> set ds"
  shows "newDate R (toString R (Some t)) = Some (second_of t) \<and>
    (\<forall>u \<in> set (time_values ds). second_of u = second_of t \<longrightarrow>
       toString R (Some u) = toString R (Some t))"
proof -
  from assms(1) have "\<forall>d \<in> set ds. case d of None \<Rightarrow> False
      | Some t \<Rightarrow> newDate R (toString R d) = Some (second_of t) \<and>
          (\<forall>u \<in> set (time_values ds). second_of u = second_of t \<longrightarrow>
             toString R (Some u) = toString R d)"
    by (simp only: seconds_only_def)
  from bspec [OF this assms(2)] show ?thesis
    by simp
qed

lemma seconds_only_valid:
  assumes "seconds_only R ds" and "d \<in> set ds"
  shows "\<exists>t. d = Some t"
proof (cases d)
  case None
  from assms(1) have "\<forall>d \<in> set ds. case d of None \<Rightarrow> False
      | Some t \<Rightarrow> newDate R (toString R d) = Some (second_of t) \<and>
          (\<forall>u \<in> set (time_values ds). second_of u = second_of t \<longrightarrow>
             toString R (Some u) = toString R d)"
    by (simp only: seconds_only_def)
  from bspec [OF this assms(2)] None show ?thesis
    by simp
next
  case (Some t)
  then show ?thesis by blast
qed

lemma seconds_only_read:
  "seconds_only R ds \<Longrightarrow> Some t \<in> set ds \<Longrightarrow>
   newDate R (toString R (Some t)) = Some (second_of t)"
  using seconds_only_at by blast

lemma seconds_only_same:
  assumes "seconds_only R ds" and "Some t \<in> set ds" and "Some u \<in> set ds"
    and "second_of u = second_of t"
  shows "toString R (Some u) = toString R (Some t)"
proof -
  from assms(3) have "u \<in> set (time_values ds)"
    by (simp only: set_time_values)
  with seconds_only_at [OF assms(1,2)] assms(4) show ?thesis
    by blast
qed

lemma seconds_only_prefix:
  assumes "seconds_only R (ds @ [d])"
  shows "seconds_only R ds"
  unfolding seconds_only_def
proof
  fix e assume e: "e \<in> set ds"
  then have e': "e \<in> set (ds @ [d])" by simp
  from seconds_only_valid [OF assms e'] obtain t where t: "e = Some t" by blast
  have "newDate R (toString R e) = Some (second_of t)"
    using seconds_only_read [OF assms] e' t by simp
  moreover have "\<forall>u \<in> set (time_values ds). second_of u = second_of t \<longrightarrow>
      toString R (Some u) = toString R e"
  proof (intro ballI impI)
    fix u assume "u \<in> set (time_values ds)" and same: "second_of u = second_of t"
    then have "Some u \<in> set (ds @ [d])" by (simp add: set_time_values)
    from seconds_only_same [OF assms _ this same] e' t
    show "toString R (Some u) = toString R e" by simp
  qed
  ultimately show "case e of None \<Rightarrow> False
      | Some t \<Rightarrow> newDate R (toString R e) = Some (second_of t) \<and>
          (\<forall>u \<in> set (time_values ds). second_of u = second_of t \<longrightarrow>
             toString R (Some u) = toString R e)"
    using t by simp
qed

subsection \<open>The map\<close>

lemma map_of_map_set: "map_of (map_set m k v) = (map_of m)(k \<mapsto> v)"
  by (induction m) (auto simp: fun_eq_iff)

lemma map_set_fresh: "map_of m k = None \<Longrightarrow> map_set m k v = m @ [(k, v)]"
  by (induction m) (auto split: if_splits)

lemma map_set_last: "map_of m k = None \<Longrightarrow> map_set (m @ [(k, v0)]) k v = m @ [(k, v)]"
  by (induction m) (auto split: if_splits)

lemma keys_map_set:
  "map fst (map_set m k v) = (if k \<in> set (map fst m) then map fst m else map fst m @ [k])"
  by (induction m) force+

subsection \<open>The loop\<close>

lemma countRequest_fields:
  "id_c (countRequest R c x) = id_c c"
  "requests (countRequest R c x) = requests c @ [x]"
  "totalRequests (countRequest R c x) = totalRequests c + 1"
  "completedRequests (countRequest R c x) =
     (if status x = Booked then completedRequests c + 1 else completedRequests c)"
  "totalSpent (countRequest R c x) =
     (if status x = Booked then totalSpent c + 75 else totalSpent c)"
  "lastRequest (countRequest R c x) =
     (if date_gt (createdAt x) (newDate R (lastRequest c)) then toString R (createdAt x)
      else lastRequest c)"
  by (simp_all add: countRequest_def Let_def)

lemma entry_last_count:
  assumes "entry_last R c"
  shows "entry_last R (countRequest R c x)"
proof -
  let ?ds = "map createdAt (requests c)"
  let ?c' = "countRequest R c x"
  from assms have ne: "requests c \<noteq> []"
    and mem: "lastRequest c \<in> toString R ` createdAt ` set (requests c)"
    and latest: "seconds_only R ?ds \<Longrightarrow>
      lastRequest c = toString R (Some (Max (set (time_values ?ds))))"
    by (simp_all add: entry_last_def)
  have ds': "map createdAt (requests ?c') = ?ds @ [createdAt x]"
    by (simp add: countRequest_fields)
  have "requests ?c' \<noteq> []"
    by (simp add: countRequest_fields)
  moreover have "lastRequest ?c' \<in> toString R ` createdAt ` set (requests ?c')"
    using mem by (auto simp add: countRequest_fields)
  moreover have "lastRequest ?c' = toString R (Some (Max (set (time_values (?ds @ [createdAt x])))))"
    if so: "seconds_only R (?ds @ [createdAt x])"
  proof -
    from seconds_only_valid [OF so, of "createdAt x"] obtain t where t: "createdAt x = Some t"
      by auto
    have so_ds: "seconds_only R ?ds"
      using so by (rule seconds_only_prefix)
    let ?M = "Max (set (time_values ?ds))"
    have all_valid: "\<forall>d \<in> set ?ds. \<exists>u. d = Some u"
      using seconds_only_valid [OF so_ds] by blast
    from ne obtain r where r: "r \<in> set (requests c)"
      by (cases "requests c") auto
    then have "createdAt r \<in> set ?ds" by simp
    with all_valid obtain u where "Some u \<in> set ?ds" by metis
    then have "u \<in> set (time_values ?ds)"
      by (simp only: set_time_values)
    then have values_ne: "set (time_values ?ds) \<noteq> {}"
      by (metis equals0D)
    then have "?M \<in> set (time_values ?ds)"
      by (intro Max_in) simp_all
    then have M_in: "Some ?M \<in> set (?ds @ [createdAt x])"
      by (simp add: set_time_values)
    have t_in: "Some t \<in> set (?ds @ [createdAt x])"
      using t by simp
    have last: "lastRequest c = toString R (Some ?M)"
      using so_ds by (rule latest)
    have read: "newDate R (lastRequest c) = Some (second_of ?M)"
      unfolding last using so M_in by (rule seconds_only_read)
    have max: "Max (set (time_values (?ds @ [createdAt x]))) = max t ?M"
      using values_ne t by (simp add: time_values_append)
    show ?thesis
    proof (cases "second_of ?M < t")
      case True
      then have new: "lastRequest ?c' = toString R (Some t)"
        using read t by (simp add: countRequest_fields date_gt_def)
      show ?thesis
      proof (cases "?M \<le> t")
        case True
        with new max show ?thesis by (simp add: max_def)
      next
        case False
        then have "t \<le> ?M" by simp
        with \<open>second_of ?M < t\<close> have "second_of t = second_of ?M"
          by (rule second_of_between)
        from seconds_only_same [OF so M_in t_in this]
        have "toString R (Some t) = toString R (Some ?M)" .
        with new max False show ?thesis by (simp add: max_def)
      qed
    next
      case False
      then have old: "lastRequest ?c' = lastRequest c"
        using read t by (simp add: countRequest_fields date_gt_def)
      from False have "t \<le> ?M"
        using second_of_le [of ?M] by simp
      with old last max show ?thesis by (simp add: max_def)
    qed
  qed
  ultimately show ?thesis
    unfolding entry_last_def ds' by blast
qed

lemma entry_last_new: "entry_last R (countRequest R (newClient R x) x)"
proof -
  let ?c' = "countRequest R (newClient R x) x"
  have reqs: "requests ?c' = [x]"
    by (simp add: countRequest_fields newClient_def)
  have last: "lastRequest ?c' = toString R (createdAt x)"
    by (simp add: countRequest_fields newClient_def)
  have "lastRequest ?c' = toString R (Some (Max (set (time_values (map createdAt (requests ?c'))))))"
    if so: "seconds_only R (map createdAt (requests ?c'))"
  proof -
    from seconds_only_valid [OF so, of "createdAt x"] obtain t where "createdAt x = Some t"
      by (auto simp add: reqs)
    then show ?thesis by (simp add: last reqs)
  qed
  then show ?thesis
    unfolding entry_last_def by (simp add: reqs last)
qed

lemma filter_other_key:
  "clientKey R x \<notin> clientKey R ` set seen \<Longrightarrow>
   filter (\<lambda>r. clientKey R r = clientKey R x) seen = []"
  by (induction seen) auto

lemma entry_ok_other:
  "entry_ok R seen k c \<Longrightarrow> clientKey R x \<noteq> k \<Longrightarrow> entry_ok R (seen @ [x]) k c"
  by (auto simp add: entry_ok_def)

lemma entry_ok_count:
  assumes "entry_ok R seen k c" and "clientKey R x = k"
  shows "entry_ok R (seen @ [x]) k (countRequest R c x)"
proof -
  have "entry_last R c"
    using assms(1) unfolding entry_ok_def by blast
  then have "entry_last R (countRequest R c x)"
    by (rule entry_last_count)
  then show ?thesis
    using assms by (simp add: entry_ok_def countRequest_fields)
qed

lemma entry_ok_new:
  assumes "clientKey R x \<notin> clientKey R ` set seen"
  shows "entry_ok R (seen @ [x]) (clientKey R x) (countRequest R (newClient R x) x)"
proof -
  have "filter (\<lambda>r. clientKey R r = clientKey R x) seen = []"
    using assms by (rule filter_other_key)
  then show ?thesis
    by (simp add: entry_ok_def countRequest_fields entry_last_new) (simp add: newClient_def)
qed

lemma forEach_body_ok:
  assumes "map_ok R seen m"
  shows "\<exists>m'. forEach_body R m x = Inr m' \<and> map_ok R (seen @ [x]) m'"
proof (cases "map_of m (clientKey R x)")
  case None
  then have fresh: "clientKey R x \<notin> clientKey R ` set seen"
    using assms by (metis map_ok_def map_of_eq_None_iff set_map)
  let ?c = "countRequest R (newClient R x) x"
  have body: "forEach_body R m x = Inr (m @ [(clientKey R x, ?c)])"
    using None
    by (simp add: forEach_body_def map_has_def map_get_def Let_def map_set_fresh map_set_last
        map_add_def)
  have "map_ok R (seen @ [x]) (m @ [(clientKey R x, ?c)])"
    unfolding map_ok_def
  proof (intro conjI allI impI)
    show "distinct (map fst (m @ [(clientKey R x, ?c)]))"
      using assms fresh by (simp add: map_ok_def)
    show "set (map fst (m @ [(clientKey R x, ?c)])) = clientKey R ` set (seen @ [x])"
      using assms by (auto simp add: map_ok_def)
  next
    fix k c assume "map_of (m @ [(clientKey R x, ?c)]) k = Some c"
    then consider "map_of m k = Some c" | "map_of m k = None" "k = clientKey R x" "c = ?c"
      by (auto simp add: map_add_Some_iff split: if_splits)
    then show "entry_ok R (seen @ [x]) k c"
    proof cases
      case 1
      with None have "clientKey R x \<noteq> k" by auto
      with 1 assms show ?thesis by (simp add: map_ok_def entry_ok_other)
    next
      case 2
      with fresh show ?thesis by (simp add: entry_ok_new)
    qed
  qed
  with body show ?thesis by blast
next
  case (Some c0)
  let ?m' = "map_set m (clientKey R x) (countRequest R c0 x)"
  have body: "forEach_body R m x = Inr ?m'"
    using Some by (simp add: forEach_body_def map_has_def map_get_def Let_def)
  have key_in: "clientKey R x \<in> set (map fst m)"
    using Some by (metis map_of_eq_None_iff option.distinct(1) set_map)
  have "map_ok R (seen @ [x]) ?m'"
    unfolding map_ok_def
  proof (intro conjI allI impI)
    show "distinct (map fst ?m')"
      using assms key_in by (simp add: keys_map_set map_ok_def)
    show "set (map fst ?m') = clientKey R ` set (seen @ [x])"
      using assms key_in by (auto simp add: keys_map_set map_ok_def)
  next
    fix k c assume "map_of ?m' k = Some c"
    then consider "k = clientKey R x" "c = countRequest R c0 x"
      | "k \<noteq> clientKey R x" "map_of m k = Some c"
      by (auto simp add: map_of_map_set split: if_splits)
    then show "entry_ok R (seen @ [x]) k c"
    proof cases
      case 1
      with Some assms show ?thesis by (simp add: map_ok_def entry_ok_count)
    next
      case 2
      with assms show ?thesis by (simp add: map_ok_def entry_ok_other)
    qed
  qed
  with body show ?thesis by blast
qed

lemma forEach_ok:
  "map_ok R seen m \<Longrightarrow> \<exists>m'. forEach R m xs = Inr m' \<and> map_ok R (seen @ xs) m'"
proof (induction xs arbitrary: seen m)
  case Nil
  then show ?case by simp
next
  case (Cons x xs)
  from forEach_body_ok [OF Cons.prems, of x]
  obtain m1 where m1: "forEach_body R m x = Inr m1" "map_ok R (seen @ [x]) m1" by blast
  from Cons.IH [OF m1(2)] m1(1) show ?case by simp
qed

lemma fetchClients_ok:
  "\<exists>m. fetchClients R bookingRequests = Inr (map snd m) \<and> map_ok R bookingRequests m"
proof -
  have "map_ok R [] []" by (simp add: map_ok_def)
  from forEach_ok [OF this, of bookingRequests] show ?thesis
    by (auto simp add: fetchClients_def map_values_def)
qed

lemma map_ok_entries:
  assumes "map_ok R seen m" and "c \<in> set (map snd m)"
  shows "entry_ok R seen (id_c c) c"
proof -
  from assms(2) obtain k where kc: "(k, c) \<in> set m" by auto
  moreover have "distinct (map fst m)" using assms(1) by (simp add: map_ok_def)
  ultimately have "map_of m k = Some c" by simp
  with assms(1) have ok: "entry_ok R seen k c" by (simp add: map_ok_def)
  then have "id_c c = k" by (simp add: entry_ok_def)
  with ok show ?thesis by simp
qed

lemma map_ok_keys:
  assumes "map_ok R seen m"
  shows "map id_c (map snd m) = map fst m"
proof -
  have "id_c (snd e) = fst e" if "e \<in> set m" for e
  proof -
    have "distinct (map fst m)" using assms by (simp add: map_ok_def)
    with that have "map_of m (fst e) = Some (snd e)" by simp
    with assms have "entry_ok R seen (fst e) (snd e)" by (simp add: map_ok_def)
    then show ?thesis by (simp add: entry_ok_def)
  qed
  then show ?thesis by simp
qed

lemmas fetch_defs = fetchClients_def forEach_body_def map_has_def map_get_def map_values_def
  newClient_def countRequest_def clientKey_def Let_def date_gt_def
  sample_runtime_def ascii_toLowerCase_def sample_printed_def sample_read_def
  example_request_def

subsection \<open>The entries\<close>

text \<open>
  C8. The key of an entry is the email in lower case, so two emails that differ in case
  only are one client: of two requests, from \<open>Ann@x.com\<close> and from \<open>ann@x.com\<close>, the
  page makes one entry, which counts two requests where one has its email.
\<close>

theorem fetchClients_email_case_counterexample:
  "clientEmail (example_request ''Ann@x.com'' Booked 1700000000500) \<noteq>
     clientEmail (example_request ''ann@x.com'' Pending 1700000100000) \<and>
   length (filter (\<lambda>r. clientEmail r = ''Ann@x.com'')
     [example_request ''Ann@x.com'' Booked 1700000000500,
      example_request ''ann@x.com'' Pending 1700000100000]) = 1 \<and>
   map_sum id (map (\<lambda>c. (email_c c, totalRequests c, map clientEmail (requests c))))
     (fetchClients sample_runtime
        [example_request ''Ann@x.com'' Booked 1700000000500,
         example_request ''ann@x.com'' Pending 1700000100000])
   = Inr [(''Ann@x.com'', 2, [''Ann@x.com'', ''ann@x.com''])]"
  by (simp add: fetch_defs)

text \<open>
  C8, as the page has it. \<^verbatim>\<open>fetchClients\<close> does not throw, and it makes one entry for
  each distinct lower-cased client email. The \<^verbatim>\<open>requests\<close> of an entry are the fetched
  requests whose lower-cased email is the key of the entry, in the order fetched, and there
  is at least one; \<^verbatim>\<open>totalRequests\<close> is their number. \<^verbatim>\<open>lastRequest\<close> is the printed
  form of the \<^verbatim>\<open>createdAt\<close> of one of them, and of the latest \<^verbatim>\<open>createdAt\<close> among
  them where their dates are valid and printed to the second.
\<close>

theorem fetchClients_groups:
  "\<exists>cs. fetchClients R bookingRequests = Inr cs \<and>
     distinct (map id_c cs) \<and>
     set (map id_c cs) = (\<lambda>r. toLowerCase R (clientEmail r)) ` set bookingRequests \<and>
     (\<forall>c \<in> set cs.
        requests c = filter (\<lambda>r. toLowerCase R (clientEmail r) = id_c c) bookingRequests \<and>
        requests c \<noteq> [] \<and>
        totalRequests c = length (requests c) \<and>
        lastRequest c \<in> toString R ` createdAt ` set (requests c) \<and>
        (seconds_only R (map createdAt (requests c)) \<longrightarrow>
           lastRequest c = toString R (Some (Max (set (time_values (map createdAt (requests c))))))))"
proof -
  from fetchClients_ok [of R bookingRequests]
  obtain m where m: "fetchClients R bookingRequests = Inr (map snd m)" "map_ok R bookingRequests m"
    by blast
  have keys: "map id_c (map snd m) = map fst m"
    using m(2) by (rule map_ok_keys)
  have "distinct (map id_c (map snd m))"
    using m(2) unfolding keys by (simp add: map_ok_def)
  moreover have "set (map id_c (map snd m)) =
      (\<lambda>r. toLowerCase R (clientEmail r)) ` set bookingRequests"
    using m(2) unfolding keys by (simp add: map_ok_def clientKey_def [abs_def])
  moreover have "\<forall>c \<in> set (map snd m).
        requests c = filter (\<lambda>r. toLowerCase R (clientEmail r) = id_c c) bookingRequests \<and>
        requests c \<noteq> [] \<and>
        totalRequests c = length (requests c) \<and>
        lastRequest c \<in> toString R ` createdAt ` set (requests c) \<and>
        (seconds_only R (map createdAt (requests c)) \<longrightarrow>
           lastRequest c = toString R (Some (Max (set (time_values (map createdAt (requests c)))))))"
  proof
    fix c assume "c \<in> set (map snd m)"
    from map_ok_entries [OF m(2) this] show
       "requests c = filter (\<lambda>r. toLowerCase R (clientEmail r) = id_c c) bookingRequests \<and>
        requests c \<noteq> [] \<and>
        totalRequests c = length (requests c) \<and>
        lastRequest c \<in> toString R ` createdAt ` set (requests c) \<and>
        (seconds_only R (map createdAt (requests c)) \<longrightarrow>
           lastRequest c = toString R (Some (Max (set (time_values (map createdAt (requests c)))))))"
      unfolding entry_ok_def entry_last_def clientKey_def by blast
  qed
  ultimately show ?thesis using m(1) by blast
qed

theorem fetchClients_groups_witness:
  "(case fetchClients sample_runtime example_requests of
      Inl e \<Rightarrow> False
    | Inr cs \<Rightarrow>
        map id_c cs = [''ann@x.com'', ''bob@y.org''] \<and>
        map totalRequests cs = [3, 1] \<and>
        map lastRequest cs =
          [''Wed Nov 15 2023 22:13:20 GMT+0000 (Coordinated Universal Time)'',
           ''Tue Nov 14 2023 22:15:00 GMT+0000 (Coordinated Universal Time)''])"
proof -
  let ?R = sample_runtime
  let ?view = "\<lambda>c. (id_c c, map createdAt (requests c))"
  from fetchClients_groups [of ?R example_requests]
  obtain cs where cs: "fetchClients ?R example_requests = Inr cs"
    and each: "\<forall>c \<in> set cs. totalRequests c = length (requests c) \<and>
        (seconds_only ?R (map createdAt (requests c)) \<longrightarrow>
           lastRequest c =
             toString ?R (Some (Max (set (time_values (map createdAt (requests c)))))))"
    by blast
  have "map_sum id (map ?view) (fetchClients ?R example_requests) =
      Inr [(''ann@x.com'', [Some 1700000000500, Some 1700086400700, Some 1700086400200]),
           (''bob@y.org'', [Some 1700000100000])]"
    by (simp add: fetch_defs example_requests_def)
  with cs have view: "map ?view cs =
      [(''ann@x.com'', [Some 1700000000500, Some 1700086400700, Some 1700086400200]),
       (''bob@y.org'', [Some 1700000100000])]"
    by simp
  have "list_all (\<lambda>p. seconds_only ?R (snd p)) (map ?view cs)"
    unfolding view
    by (simp add: seconds_only_def second_of_def sample_runtime_def sample_printed_def
        sample_read_def)
  then have so: "\<forall>c \<in> set cs. seconds_only ?R (map createdAt (requests c))"
    by (simp add: list_all_iff)
  have "map totalRequests cs = map (\<lambda>p. length (snd p)) (map ?view cs)"
    using each by simp
  then have total: "map totalRequests cs = [3, 1]"
    unfolding view by simp
  have "map lastRequest cs =
      map (\<lambda>p. toString ?R (Some (Max (set (time_values (snd p)))))) (map ?view cs)"
    using each so by simp
  then have last: "map lastRequest cs =
      [''Wed Nov 15 2023 22:13:20 GMT+0000 (Coordinated Universal Time)'',
       ''Tue Nov 14 2023 22:15:00 GMT+0000 (Coordinated Universal Time)'']"
    unfolding view by (simp add: sample_runtime_def sample_printed_def)
  have "map id_c cs = map fst (map ?view cs)"
    by simp
  then have "map id_c cs = [''ann@x.com'', ''bob@y.org'']"
    unfolding view by simp
  with total last cs show ?thesis by simp
qed

text \<open>
  C10. In every entry, \<^verbatim>\<open>totalSpent\<close> is 75 time_values \<^verbatim>\<open>completedRequests\<close>, and
  \<^verbatim>\<open>completedRequests\<close> is the number of the requests of the entry whose status is
  \<^verbatim>\<open>booked\<close>; the requests of the entry are the fetched requests under its key.
\<close>

theorem fetchClients_spent:
  "\<exists>cs. fetchClients R bookingRequests = Inr cs \<and>
     (\<forall>c \<in> set cs.
        totalSpent c = 75 * completedRequests c \<and>
        completedRequests c = length (filter (\<lambda>r. status r = Booked) (requests c)) \<and>
        requests c = filter (\<lambda>r. toLowerCase R (clientEmail r) = id_c c) bookingRequests)"
proof -
  from fetchClients_ok [of R bookingRequests]
  obtain m where m: "fetchClients R bookingRequests = Inr (map snd m)" "map_ok R bookingRequests m"
    by blast
  have "\<forall>c \<in> set (map snd m).
        totalSpent c = 75 * completedRequests c \<and>
        completedRequests c = length (filter (\<lambda>r. status r = Booked) (requests c)) \<and>
        requests c = filter (\<lambda>r. toLowerCase R (clientEmail r) = id_c c) bookingRequests"
  proof
    fix c assume "c \<in> set (map snd m)"
    from map_ok_entries [OF m(2) this] show
       "totalSpent c = 75 * completedRequests c \<and>
        completedRequests c = length (filter (\<lambda>r. status r = Booked) (requests c)) \<and>
        requests c = filter (\<lambda>r. toLowerCase R (clientEmail r) = id_c c) bookingRequests"
      unfolding entry_ok_def clientKey_def by blast
  qed
  with m(1) show ?thesis by blast
qed

theorem fetchClients_spent_witness:
  "(case fetchClients sample_runtime example_requests of
      Inl e \<Rightarrow> False
    | Inr cs \<Rightarrow> map completedRequests cs = [2, 0] \<and> map totalSpent cs = [150, 0])"
proof -
  from fetchClients_spent [of sample_runtime example_requests]
  obtain cs where cs: "fetchClients sample_runtime example_requests = Inr cs"
    and each: "\<forall>c \<in> set cs. totalSpent c = 75 * completedRequests c"
    by blast
  have "map_sum id (map completedRequests) (fetchClients sample_runtime example_requests)
      = Inr [2, 0]"
    by (simp add: fetch_defs example_requests_def)
  with cs have booked: "map completedRequests cs = [2, 0]"
    by simp
  have "map totalSpent cs = map (\<lambda>n. 75 * n) (map completedRequests cs)"
    using each by simp
  then have "map totalSpent cs = [150, 0]"
    unfolding booked by simp
  with booked cs show ?thesis by simp
qed

end
